theory Spec2Isabelle
  imports Main
begin

section \<open>Shared DOM vocabulary\<close>

text \<open>
  The script \<^verbatim>\<open>script.js\<close> reacts to browser events by mutating class lists, inline
  styles and a few injected nodes.  An element is modelled by the attributes the script
  reads and writes.  Pixel offsets are whole numbers (\<^typ>\<open>int\<close>); an attribute that is
  absent reads as \<open>None\<close>, as \<^verbatim>\<open>getAttribute\<close> returns \<^verbatim>\<open>null\<close>.
\<close>

datatype error = TypeError | SyntaxError

record element =
  attributes :: "(string \<times> string) list"
  classList :: "string list"
  style :: "(string \<times> string) list"
  offsetTop :: int
  offsetHeight :: int

definition getAttribute :: "element \<Rightarrow> string \<Rightarrow> string option" where
  "getAttribute e name = map_of (attributes e) name"

definition classList_contains :: "string list \<Rightarrow> string \<Rightarrow> bool" where
  "classList_contains cs c = (c \<in> set cs)"

definition classList_add :: "string \<Rightarrow> string list \<Rightarrow> string list" where
  "classList_add c cs = (if c \<in> set cs then cs else cs @ [c])"

definition classList_remove :: "string \<Rightarrow> string list \<Rightarrow> string list" where
  "classList_remove c cs = removeAll c cs"

definition add_class :: "string \<Rightarrow> element \<Rightarrow> element" where
  "add_class c e = e\<lparr>classList := classList_add c (classList e)\<rparr>"

definition remove_class :: "string \<Rightarrow> element \<Rightarrow> element" where
  "remove_class c e = e\<lparr>classList := classList_remove c (classList e)\<rparr>"

definition has_class :: "string \<Rightarrow> element \<Rightarrow> bool" where
  "has_class c e = classList_contains (classList e) c"

section \<open>Navigation, header and scroll handlers\<close>

text \<open>
  The page state these handlers see.  \<open>navMenu\<close>, \<open>navToggle\<close> and \<open>navClose\<close> are
  the results of the three \<^verbatim>\<open>getElementById\<close> calls at load time, \<open>header\<close> is
  \<^verbatim>\<open>getElementById('header')\<close>, \<open>headerBox\<close> is \<^verbatim>\<open>querySelector('.header')\<close>,
  \<open>sections\<close> is \<^verbatim>\<open>querySelectorAll('section[id]')\<close> and \<open>navLinks\<close> is the list of
  \<^verbatim>\<open>.nav__link\<close> elements, all in document order.  \<open>scrollTarget\<close> records the last
  \<^verbatim>\<open>window.scrollTo\<close> request.
\<close>

record dom =
  navMenu :: "element option"
  navToggle :: "element option"
  navClose :: "element option"
  header :: "element option"
  headerBox :: "element option"
  sections :: "element list"
  navLinks :: "element list"
  pageYOffset :: int
  scrollTarget :: "int option"

text \<open>\<^verbatim>\<open>handleHeaderScroll\<close>: both branches dereference \<open>header\<close> unguarded.\<close>

definition handleHeaderScroll :: "dom \<Rightarrow> error + dom" where
  "handleHeaderScroll d =
     (let scrollY = pageYOffset d in
      case header d of
        None \<Rightarrow> Inl TypeError
      | Some h \<Rightarrow>
          if scrollY \<ge> 50
          then Inr (d\<lparr>header := Some (add_class ''blur-header'' h)\<rparr>)
          else Inr (d\<lparr>header := Some (remove_class ''blur-header'' h)\<rparr>))"

text \<open>
  \<^verbatim>\<open>highlightActiveNavLink\<close> builds a selector text for every section by putting the
  section's id, as it is, between \<^verbatim>\<open>.nav__link[href*="\<close> and \<^verbatim>\<open>"]\<close>, and hands the text
  to \<^verbatim>\<open>document.querySelector\<close>.  The browser's selector engine is not part of the script:
  it is a parameter here, a function from the selector text and the \<^verbatim>\<open>.nav__link\<close>
  elements of the page to the position of the element found, to \<open>None\<close> for \<^verbatim>\<open>null\<close>, or
  to the error it throws.
\<close>

type_synonym selector_engine = "string \<Rightarrow> element list \<Rightarrow> error + nat option"

definition nav_link_selector :: "string \<Rightarrow> string" where
  \<open>nav_link_selector sectionId = ''.nav__link[href*="'' @ sectionId @ ''"]''\<close>

definition querySelector_navLink ::
  "selector_engine \<Rightarrow> element list \<Rightarrow> string \<Rightarrow> error + nat option" where
  "querySelector_navLink engine links sectionId = engine (nav_link_selector sectionId) links"

text \<open>\<^verbatim>\<open>section[id]\<close> guarantees the attribute; an absent one would interpolate as the
  text \<^verbatim>\<open>null\<close>.\<close>

definition section_id :: "element \<Rightarrow> string" where
  "section_id s = (case getAttribute s ''id'' of None \<Rightarrow> ''null'' | Some i \<Rightarrow> i)"

text \<open>
  The body of the \<^verbatim>\<open>sections.forEach\<close> callback.  The lookup comes before the test of
  the scroll position, so an error of the engine leaves the links as they are;
  \<^verbatim>\<open>navLink?.\<close> skips a missing link.
\<close>

definition highlight_section ::
  "selector_engine \<Rightarrow> int \<Rightarrow> element list \<Rightarrow> element \<Rightarrow> error + element list" where
  "highlight_section engine scrollY links s =
     (let sectionHeight = offsetHeight s;
          sectionTop = offsetTop s - 200;
          sectionId = section_id s
      in case querySelector_navLink engine links sectionId of
           Inl e \<Rightarrow> Inl e
         | Inr navLink \<Rightarrow>
             if scrollY > sectionTop \<and> scrollY \<le> sectionTop + sectionHeight
             then (case navLink of
                     None \<Rightarrow> Inr links
                   | Some k \<Rightarrow> Inr (links[k := add_class ''active-link'' (links ! k)]))
             else (case navLink of
                     None \<Rightarrow> Inr links
                   | Some k \<Rightarrow> Inr (links[k := remove_class ''active-link'' (links ! k)])))"

text \<open>The \<^verbatim>\<open>forEach\<close> loop: an error thrown by the callback ends it, and what was
  marked before stays.  The result is the links and the error, if any.\<close>

fun highlight_sections ::
  "selector_engine \<Rightarrow> int \<Rightarrow> element list \<Rightarrow> element list \<Rightarrow> element list \<times> error option" where
  "highlight_sections engine scrollY links [] = (links, None)"
| "highlight_sections engine scrollY links (s # ss) =
     (case highlight_section engine scrollY links s of
        Inl e \<Rightarrow> (links, Some e)
      | Inr links' \<Rightarrow> highlight_sections engine scrollY links' ss)"

definition highlightActiveNavLink :: "selector_engine \<Rightarrow> dom \<Rightarrow> dom \<times> error option" where
  "highlightActiveNavLink engine d =
     (let scrollY = pageYOffset d + 200;
          result = highlight_sections engine scrollY (navLinks d) (sections d)
      in (d\<lparr>navLinks := fst result\<rparr>, snd result))"

text \<open>
  What the selector means when the id needs no escaping.  An id is plain when it has no
  double quote, no backslash, no line feed, form feed or carriage return and no null
  character; then the text is the selector \<^verbatim>\<open>.nav__link[href*="v"]\<close> with the id as \<open>v\<close>,
  which matches a link whose \<^verbatim>\<open>href\<close> attribute contains \<open>v\<close> as a substring, and
  nothing when \<open>v\<close> is empty.  \<open>first_href_match\<close> is the position of the first such
  link, and \<open>mark_section\<close> is the callback with this lookup.
\<close>

definition css_plain :: "string \<Rightarrow> bool" where
  "css_plain v =
     list_all (\<lambda>c. c \<noteq> CHR 0x22 \<and> c \<noteq> CHR 0x5C \<and> c \<noteq> CHR 0x0A \<and> c \<noteq> CHR 0x0C \<and>
                    c \<noteq> CHR 0x0D \<and> c \<noteq> CHR 0x00) v"

fun starts_with :: "string \<Rightarrow> string \<Rightarrow> bool" where
  "starts_with s [] = True"
| "starts_with [] (p # ps) = False"
| "starts_with (c # cs) (p # ps) = (c = p \<and> starts_with cs ps)"

fun str_includes :: "string \<Rightarrow> string \<Rightarrow> bool" where
  "str_includes [] v = (v = [])"
| "str_includes (c # cs) v = (starts_with (c # cs) v \<or> str_includes cs v)"

definition href_contains :: "string \<Rightarrow> element \<Rightarrow> bool" where
  "href_contains v e =
     (case getAttribute e ''href'' of
        None \<Rightarrow> False
      | Some h \<Rightarrow> v \<noteq> [] \<and> str_includes h v)"

fun find_index :: "('a \<Rightarrow> bool) \<Rightarrow> 'a list \<Rightarrow> nat option" where
  "find_index P [] = None"
| "find_index P (x # xs) = (if P x then Some 0 else map_option Suc (find_index P xs))"

definition first_href_match :: "element list \<Rightarrow> string \<Rightarrow> nat option" where
  "first_href_match links v = find_index (href_contains v) links"

definition mark_section :: "int \<Rightarrow> element list \<Rightarrow> element \<Rightarrow> element list" where
  "mark_section scrollY links s =
     (let navLink = first_href_match links (section_id s)
      in if scrollY > offsetTop s - 200 \<and> scrollY \<le> offsetTop s - 200 + offsetHeight s
         then (case navLink of
                 None \<Rightarrow> links
               | Some k \<Rightarrow> links[k := add_class ''active-link'' (links ! k)])
         else (case navLink of
                 None \<Rightarrow> links
               | Some k \<Rightarrow> links[k := remove_class ''active-link'' (links ! k)]))"

text \<open>
  The click listeners of the mobile menu.  Each is registered only when its own
  element exists (\<^verbatim>\<open>if (navToggle)\<close>, \<^verbatim>\<open>if (navClose)\<close>, one per
  \<^verbatim>\<open>.nav__link\<close>), and each dereferences \<open>navMenu\<close> without a check.
\<close>

definition navToggle_click :: "dom \<Rightarrow> error + dom" where
  "navToggle_click d =
     (case navMenu d of
        None \<Rightarrow> Inl TypeError
      | Some m \<Rightarrow> Inr (d\<lparr>navMenu := Some (add_class ''show-menu'' m)\<rparr>))"

definition navClose_click :: "dom \<Rightarrow> error + dom" where
  "navClose_click d =
     (case navMenu d of
        None \<Rightarrow> Inl TypeError
      | Some m \<Rightarrow> Inr (d\<lparr>navMenu := Some (remove_class ''show-menu'' m)\<rparr>))"

definition navLink_click :: "dom \<Rightarrow> error + dom" where
  "navLink_click d =
     (case navMenu d of
        None \<Rightarrow> Inl TypeError
      | Some m \<Rightarrow> Inr (d\<lparr>navMenu := Some (remove_class ''show-menu'' m)\<rparr>))"

text \<open>
  \<^verbatim>\<open>smoothScrollToSection\<close>; \<open>targetSection\<close> is what
  \<^verbatim>\<open>document.querySelector(targetId)\<close> found.  The header's height is read before
  the target is tested.
\<close>

definition smoothScrollToSection :: "element option \<Rightarrow> dom \<Rightarrow> error + dom" where
  "smoothScrollToSection targetSection d =
     (case headerBox d of
        None \<Rightarrow> Inl TypeError
      | Some hb \<Rightarrow>
          (let headerHeight = offsetHeight hb in
           case targetSection of
             Some t \<Rightarrow> Inr (d\<lparr>scrollTarget := Some (offsetTop t - headerHeight)\<rparr>)
           | None \<Rightarrow> Inr d))"

text \<open>
  The document-wide \<^verbatim>\<open>keydown\<close> listener.  The second component of the result says
  whether \<^verbatim>\<open>e.target.click()\<close> was called.
\<close>

definition keydown :: "string \<Rightarrow> element \<Rightarrow> dom \<Rightarrow> error + dom \<times> bool" where
  "keydown key target d =
     (let escape =
        (if key = ''Escape''
         then (case navMenu d of
                 None \<Rightarrow> Inl TypeError
               | Some m \<Rightarrow>
                   if has_class ''show-menu'' m
                   then Inr (d\<lparr>navMenu := Some (remove_class ''show-menu'' m)\<rparr>)
                   else Inr d)
         else Inr d)
      in case escape of
           Inl e \<Rightarrow> Inl e
         | Inr d' \<Rightarrow> Inr (d', key = ''Enter'' \<and> has_class ''filter__btn'' target))"

section \<open>Project filter\<close>

text \<open>
  \<open>filterButtons\<close> and \<open>projectCards\<close> are the two node lists taken by the constructor.
  \<open>cardTimers\<close> lists the \<^verbatim>\<open>setTimeout\<close> calls made by \<^verbatim>\<open>filterProjects\<close>: the delay
  in milliseconds and the position of the card whose style the callback resets.
\<close>

record project_filter =
  filterButtons :: "element list"
  projectCards :: "element list"
  cardTimers :: "(nat \<times> nat) list"

text \<open>\<^verbatim>\<open>updateActiveButton\<close>; the clicked button is given by its position in
  \<open>filterButtons\<close>, where the listener that calls it was registered.\<close>

definition updateActiveButton :: "nat \<Rightarrow> project_filter \<Rightarrow> project_filter" where
  "updateActiveButton activeBtn pf =
     (let cleared = map (remove_class ''filter__btn--active'') (filterButtons pf)
      in pf\<lparr>filterButtons :=
              cleared[activeBtn := add_class ''filter__btn--active'' (cleared ! activeBtn)]\<rparr>)"

text \<open>\<^verbatim>\<open>filter === 'all' || category === filter\<close>, on values that may be \<^verbatim>\<open>null\<close>.\<close>

definition shouldShow :: "string option \<Rightarrow> element \<Rightarrow> bool" where
  "shouldShow filter_value pcard =
     (let category = getAttribute pcard ''data-category''
      in filter_value = Some ''all'' \<or> category = filter_value)"

text \<open>The \<^verbatim>\<open>projectCards.forEach\<close> loop; \<open>i\<close> is the position of the card at the head.\<close>

fun filter_cards :: "string option \<Rightarrow> nat \<Rightarrow> element list \<Rightarrow> element list \<times> (nat \<times> nat) list" where
  "filter_cards f i [] = ([], [])"
| "filter_cards f i (pcard # cards) =
     (let (cards', timers) = filter_cards f (Suc i) cards
      in if shouldShow f pcard
         then (remove_class ''hide'' pcard # cards', (100, i) # timers)
         else (add_class ''hide'' pcard # cards', timers))"

definition filterProjects :: "string option \<Rightarrow> project_filter \<Rightarrow> project_filter" where
  "filterProjects f pf =
     (let (cards', timers) = filter_cards f 0 (projectCards pf)
      in pf\<lparr>projectCards := cards', cardTimers := cardTimers pf @ timers\<rparr>)"

text \<open>The callback of the deferred timer: the style reset of one card.\<close>

definition set_style :: "string \<Rightarrow> string \<Rightarrow> element \<Rightarrow> element" where
  "set_style prop v e = e\<lparr>style := (prop, v) # filter (\<lambda>p. fst p \<noteq> prop) (style e)\<rparr>"

definition card_timer_fires :: "nat \<Rightarrow> project_filter \<Rightarrow> project_filter" where
  "card_timer_fires i pf =
     pf\<lparr>projectCards := (projectCards pf)
          [i := set_style ''opacity'' ''1''
                  (set_style ''transform'' ''translateY(0)'' (projectCards pf ! i))]\<rparr>"

definition handleFilter :: "nat \<Rightarrow> project_filter \<Rightarrow> project_filter" where
  "handleFilter clickedBtn pf =
     (let filter_value = getAttribute (filterButtons pf ! clickedBtn) ''data-filter''
      in filterProjects filter_value (updateActiveButton clickedBtn pf))"

text \<open>A run of clicks, each on one of the filter buttons.\<close>

definition clicks :: "nat list \<Rightarrow> project_filter \<Rightarrow> project_filter" where
  "clicks bs pf = foldl (\<lambda>st b. handleFilter b st) pf bs"

section \<open>Scroll animations\<close>

text \<open>
  \<^verbatim>\<open>createFadeInObserver\<close> tags every observed element with \<^verbatim>\<open>animate-on-scroll\<close>
  and its callback adds \<^verbatim>\<open>animate-on-scroll\<close> and \<^verbatim>\<open>animated\<close> to an intersecting
  entry's target.
\<close>

definition fade_observe :: "element \<Rightarrow> element" where
  "fade_observe el = add_class ''animate-on-scroll'' el"

definition fade_callback :: "bool \<Rightarrow> element \<Rightarrow> element" where
  "fade_callback isIntersecting target =
     (if isIntersecting
      then add_class ''animated'' (add_class ''animate-on-scroll'' target)
      else target)"

text \<open>
  Every place of the script that changes the class list of an element already in the
  document, as an event on that element: the fade observer's callback, \<^verbatim>\<open>filterProjects\<close>
  on a card, \<^verbatim>\<open>updateActiveButton\<close> on a button (cleared, and marked again when it is
  the clicked one), the menu listeners, \<^verbatim>\<open>handleHeaderScroll\<close>, the two branches of
  \<^verbatim>\<open>highlightActiveNavLink\<close>, the skill-bar reveal, lazy image loading and the two
  fallbacks of \<^verbatim>\<open>checkFeatureSupport\<close>.
\<close>

datatype class_event =
    FadeIntersection bool
  | FadeObserve
  | FilterCard "string option"
  | FilterButton bool
  | MenuShow
  | MenuHide
  | HeaderScroll int
  | HighlightLink bool
  | SkillReveal
  | LazyLoaded
  | AnimatedFallback
  | NoGridFallback

fun class_step :: "class_event \<Rightarrow> element \<Rightarrow> element" where
  "class_step (FadeIntersection b) el = fade_callback b el"
| "class_step FadeObserve el = fade_observe el"
| "class_step (FilterCard f) el =
     (if shouldShow f el then remove_class ''hide'' el else add_class ''hide'' el)"
| "class_step (FilterButton clicked) el =
     (let el' = remove_class ''filter__btn--active'' el
      in if clicked then add_class ''filter__btn--active'' el' else el')"
| "class_step MenuShow el = add_class ''show-menu'' el"
| "class_step MenuHide el = remove_class ''show-menu'' el"
| "class_step (HeaderScroll y) el =
     (if y \<ge> 50 then add_class ''blur-header'' el else remove_class ''blur-header'' el)"
| "class_step (HighlightLink inside) el =
     (if inside then add_class ''active-link'' el else remove_class ''active-link'' el)"
| "class_step SkillReveal el = add_class ''animate'' el"
| "class_step LazyLoaded el = remove_class ''lazy'' el"
| "class_step AnimatedFallback el = add_class ''animated'' el"
| "class_step NoGridFallback el = add_class ''no-grid'' el"

definition class_run :: "class_event list \<Rightarrow> element \<Rightarrow> element" where
  "class_run evs el = foldl (\<lambda>e ev. class_step ev e) el evs"

section \<open>Debounce\<close>

text \<open>
  What the closure returned by \<^verbatim>\<open>debounce(func, wait)\<close> can see and change: the clock
  (in ms), the browser's timer table restricted to the timers this closure created, the
  closure variable \<^verbatim>\<open>timeout\<close> (\<open>None\<close> for \<^verbatim>\<open>undefined\<close>), and a log of the calls of
  \<^verbatim>\<open>func\<close> with the time of each.  A timer is its handle, the time it is due and the
  arguments captured by its callback \<^verbatim>\<open>later\<close>.
\<close>

record 'a timer =
  handle :: nat
  due :: nat
  captured :: 'a

record 'a debounced =
  clock :: nat
  next_handle :: nat
  pending :: "'a timer list"
  timeout :: "nat option"
  calls :: "(nat \<times> 'a) list"

definition clearTimeout :: "nat option \<Rightarrow> 'a debounced \<Rightarrow> 'a debounced" where
  "clearTimeout h st = st\<lparr>pending := filter (\<lambda>t. Some (handle t) \<noteq> h) (pending st)\<rparr>"

text \<open>
  The browser takes the delay of \<^verbatim>\<open>setTimeout\<close> as a signed 32-bit number of
  milliseconds: the argument is reduced modulo \<open>2\<^sup>3\<^sup>2\<close> into the range from \<open>-2\<^sup>3\<^sup>1\<close>
  up to \<open>2\<^sup>3\<^sup>1\<close>, and a negative result counts as 0.  The delay given by the script
  is a whole number of milliseconds.
\<close>

definition to_long :: "int \<Rightarrow> int" where
  "to_long x = (x + 2147483648) mod 4294967296 - 2147483648"

definition timer_delay :: "int \<Rightarrow> nat" where
  "timer_delay wait = (if to_long wait < 0 then 0 else nat (to_long wait))"

definition setTimeout :: "'a \<Rightarrow> int \<Rightarrow> 'a debounced \<Rightarrow> nat \<times> 'a debounced" where
  "setTimeout args wait st =
     (next_handle st,
      st\<lparr>pending := pending st @
             [\<lparr>handle = next_handle st, due = clock st + timer_delay wait,
               captured = args\<rparr>],
         next_handle := Suc (next_handle st)\<rparr>)"

text \<open>\<^verbatim>\<open>later\<close>: clear the timer named by \<^verbatim>\<open>timeout\<close>, then call \<^verbatim>\<open>func(...args)\<close>.\<close>

definition later :: "'a \<Rightarrow> 'a debounced \<Rightarrow> 'a debounced" where
  "later args st =
     (let st' = clearTimeout (timeout st) st
      in st'\<lparr>calls := calls st' @ [(clock st', args)]\<rparr>)"

text \<open>\<^verbatim>\<open>executedFunction(...args)\<close>.\<close>

definition executedFunction :: "int \<Rightarrow> 'a \<Rightarrow> 'a debounced \<Rightarrow> 'a debounced" where
  "executedFunction wait args st =
     (let st1 = clearTimeout (timeout st) st;
          (h, st2) = setTimeout args wait st1
      in st2\<lparr>timeout := Some h\<rparr>)"

text \<open>
  The event loop.  Among the timers due by \<open>limit\<close> the one due first runs first, the
  older one on a tie.  Running a timer removes it from the table, moves the clock to its
  due time and calls its callback.
\<close>

fun next_due :: "nat \<Rightarrow> 'a timer list \<Rightarrow> 'a timer option" where
  "next_due limit [] = None"
| "next_due limit (t # ts) =
     (case next_due limit ts of
        None \<Rightarrow> (if due t \<le> limit then Some t else None)
      | Some u \<Rightarrow> (if due t \<le> due u then Some t else Some u))"

definition fire :: "'a timer \<Rightarrow> 'a debounced \<Rightarrow> 'a debounced" where
  "fire t st =
     later (captured t)
       (st\<lparr>clock := max (clock st) (due t),
           pending := filter (\<lambda>u. handle u \<noteq> handle t) (pending st)\<rparr>)"

function run_timers :: "nat \<Rightarrow> 'a debounced \<Rightarrow> 'a debounced" where
  "run_timers limit st =
     (case next_due limit (pending st) of
        None \<Rightarrow> st\<lparr>clock := max (clock st) limit\<rparr>
      | Some t \<Rightarrow> run_timers limit (fire t st))"
  by pat_completeness auto
termination
proof (relation "measure (\<lambda>(limit, st). length (pending st))")
  show "wf (measure (\<lambda>(limit, st::'a debounced). length (pending st)))"
    by simp
next
  fix limit and st :: "'a debounced" and t
  assume nd: "next_due limit (pending st) = Some t"
  have mem: "u \<in> set ts" if "next_due limit ts = Some u" for u :: "'a timer" and ts
    using that by (induction ts arbitrary: u) (auto split: option.splits if_splits)
  have split: "pending (fire t st) =
          filter (\<lambda>u. Some (handle u) \<noteq> timeout st)
            (filter (\<lambda>u. handle u \<noteq> handle t) (pending st))"
    by (simp add: fire_def later_def clearTimeout_def Let_def)
  have "length (pending (fire t st)) \<le>
          length (filter (\<lambda>u. handle u \<noteq> handle t) (pending st))"
    unfolding split by (rule length_filter_le)
  also have "\<dots> < length (pending st)"
    using mem[OF nd] by (intro length_filter_less[of t]) simp_all
  finally show "((limit, fire t st), (limit, st)) \<in> measure (\<lambda>(limit, st). length (pending st))"
    by simp
qed

declare run_timers.simps [simp del]

text \<open>What happens to the closure: a call with some arguments, or time passing.\<close>

datatype 'a occurrence = Invoke 'a | Elapse nat

fun occur :: "int \<Rightarrow> 'a occurrence \<Rightarrow> 'a debounced \<Rightarrow> 'a debounced" where
  "occur wait (Invoke args) st = executedFunction wait args st"
| "occur wait (Elapse d) st = run_timers (clock st + d) st"

definition debounce_run :: "int \<Rightarrow> 'a occurrence list \<Rightarrow> 'a debounced \<Rightarrow> 'a debounced" where
  "debounce_run wait os st = foldl (\<lambda>s ev. occur wait ev s) st os"

text \<open>The state right after \<^verbatim>\<open>debounce(func, wait)\<close> returned.\<close>

definition debounce :: "'a debounced" where
  "debounce = \<lparr>clock = 0, next_handle = 1, pending = [], timeout = None, calls = []\<rparr>"

text \<open>A burst: a first call, then further calls, each given with the time since the
  call before it.\<close>

fun burst :: "'a \<Rightarrow> (nat \<times> 'a) list \<Rightarrow> 'a occurrence list" where
  "burst a [] = [Invoke a]"
| "burst a ((gap, b) # rest) = Invoke a # Elapse gap # burst b rest"

fun last_args :: "'a \<Rightarrow> (nat \<times> 'a) list \<Rightarrow> 'a" where
  "last_args a [] = a"
| "last_args a ((gap, b) # rest) = last_args b rest"

fun burst_length :: "(nat \<times> 'a) list \<Rightarrow> nat" where
  "burst_length [] = 0"
| "burst_length ((gap, b) # rest) = gap + burst_length rest"

text \<open>The closure never holds more than one timer, and \<^verbatim>\<open>timeout\<close> names the one it
  holds.\<close>

definition tidy :: "'a debounced \<Rightarrow> bool" where
  "tidy st =
     (case pending st of
        [] \<Rightarrow> True
      | [t] \<Rightarrow> timeout st = Some (handle t)
      | _ \<Rightarrow> False)"

section \<open>Contact form\<close>

text \<open>
  A form control with the properties the script reads: its \<^verbatim>\<open>name\<close> and \<^verbatim>\<open>id\<close>
  attributes (empty when absent), whether it carries the \<^verbatim>\<open>required\<close> attribute, its
  \<^verbatim>\<open>type\<close>, its current and default \<^verbatim>\<open>value\<close>, its parent node and its inline border
  colour.  A node the script creates (an inline error, a notification) has a class name, a
  text and inline styles.

  The elements inside the form are a tree.  A node of it is either an element of class
  \<^verbatim>\<open>form__error\<close> or any other element with its children; \<open>tree\<close> lists the children of
  the form element itself.  A parent node is named by the path that leads to it from the
  form element: each step is a position among the children that are not error elements,
  counted from 0, and the empty path is the form element.  Error elements come and go
  without changing these positions.
\<close>

record field =
  name_attr :: string
  id_attr :: string
  required :: bool
  field_type :: string
  field_value :: string
  defaultValue :: string
  parentNode :: "nat list"
  borderColor :: string

record created_node =
  className :: string
  textContent :: string
  cssText :: "(string \<times> string) list"

datatype node = ErrorDiv created_node | Element "node list"

record button =
  innerHTML :: string
  disabled :: bool

datatype deferred = SlideIn nat | SlideOut nat

text \<open>
  The record holds what the lookups of the script on the form return: \<open>controls\<close> lists
  the controls of the form, buttons included, in document order, those with
  \<open>required\<close> set being the result of \<^verbatim>\<open>this.form.querySelectorAll('[required]')\<close>, and
  \<open>submitBtn\<close> is the result of \<^verbatim>\<open>this.form.querySelector('button[type="submit"]')\<close>,
  \<open>None\<close> when the lookup yields no button.  \<open>body\<close> lists the nodes the script has
  appended to the document body, \<open>deferrals\<close> the timers it has started for them, and
  \<open>console\<close> what it has logged.
\<close>

record contact_form =
  controls :: "field list"
  tree :: "node list"
  submitBtn :: "button option"
  body :: "created_node list"
  deferrals :: "(nat \<times> deferred) list"
  console :: "string list"




text \<open>A node lies within another one when the path of the other one leads on to it.\<close>

fun within :: "nat list \<Rightarrow> nat list \<Rightarrow> bool" where
  "within q [] = True"
| "within [] (k # ks) = False"
| "within (j # js) (k # ks) = (j = k \<and> within js ks)"













text \<open>
  \<^verbatim>\<open>showNotification\<close> appends the node to the body with its two timers: the slide-in
  after 100 ms and the slide-out after 5000 ms, each naming the node by its position.
\<close>

definition notification :: "string \<Rightarrow> string \<Rightarrow> created_node" where
  "notification message kind =
     \<lparr>className = ''notification notification--'' @ kind, textContent = message,
      cssText = [(''position'', ''fixed''), (''top'', ''20px''), (''right'', ''20px''),
                 (''background'', if kind = ''success'' then ''#10b981'' else ''#ef4444''),
                 (''color'', ''white''), (''padding'', ''1rem 1.5rem''),
                 (''border-radius'', ''8px''),
                 (''box-shadow'', ''0 10px 15px rgba(0, 0, 0, 0.1)''),
                 (''z-index'', ''1000''), (''transform'', ''translateX(100%)''),
                 (''transition'', ''transform 0.3s ease'')]\<rparr>"

definition showNotification :: "string \<Rightarrow> string \<Rightarrow> contact_form \<Rightarrow> contact_form" where
  "showNotification message kind f =
     (let n = length (body f)
      in f\<lparr>body := body f @ [notification message kind],
           deferrals := deferrals f @ [(100, SlideIn n), (5000, SlideOut n)]\<rparr>)"

definition showSuccessMessage :: "contact_form \<Rightarrow> contact_form" where
  "showSuccessMessage f =
     showNotification
       (''Message sent successfully! I'' @ [CHR 0x27] @ ''ll get back to you soon.'')
       ''success'' f"

definition showErrorMessage :: "contact_form \<Rightarrow> contact_form" where
  "showErrorMessage f =
     showNotification ''Something went wrong. Please try again later.'' ''error'' f"

text \<open>
  \<^verbatim>\<open>this.form.reset\<close> reads a property of the form element, and a form offers its
  controls as properties under their names and ids, ahead of its own methods.  So when a
  control is named \<^verbatim>\<open>reset\<close>, or has that id, the property is that control and calling
  it throws; otherwise the call puts every control back to its default value.
\<close>

definition shadows_reset :: "contact_form \<Rightarrow> bool" where
  "shadows_reset f =
     list_ex (\<lambda>c. name_attr c = ''reset'' \<or> id_attr c = ''reset'') (controls f)"

definition form_reset :: "contact_form \<Rightarrow> error + contact_form" where
  "form_reset f =
     (if shadows_reset f then Inl TypeError
      else Inr (f\<lparr>controls :=
                   map (\<lambda>fld. fld\<lparr>field_value := defaultValue fld\<rparr>) (controls f)\<rparr>))"

text \<open>
  A promise is settled by the callback its executor passes on.  The executor of the
  simulated request, \<^verbatim>\<open>resolve => setTimeout(resolve, 2000)\<close>, hands \<^verbatim>\<open>resolve\<close> to one
  timer and never mentions \<^verbatim>\<open>reject\<close>.  A promise whose executor starts no timer stays
  pending.
\<close>

datatype settle = Resolve | Reject

datatype settled = Fulfilled | Rejected

fun promise :: "(nat \<times> settle) list \<Rightarrow> (nat \<times> settled) option" where
  "promise [] = None"
| "promise ((delay, Resolve) # others) = Some (delay, Fulfilled)"
| "promise ((delay, Reject) # others) = Some (delay, Rejected)"

definition simulated_request :: "(nat \<times> settled) option" where
  "simulated_request = promise [(2000, Resolve)]"

text \<open>
  \<^verbatim>\<open>submitForm\<close> up to its \<^verbatim>\<open>await\<close>: the result is the captured \<^verbatim>\<open>originalText\<close> and
  the form in its loading state.  Reading \<^verbatim>\<open>innerHTML\<close> of a missing button throws.
\<close>

definition submitForm_begin :: "contact_form \<Rightarrow> error + string \<times> contact_form" where
  \<open>submitForm_begin f =
     (case submitBtn f of
        None \<Rightarrow> Inl TypeError
      | Some b \<Rightarrow>
          (let originalText = innerHTML b
           in Inr (originalText,
                   f\<lparr>submitBtn := Some (b\<lparr>innerHTML := ''<i class="fas fa-spinner fa-spin"></i> Sending...'',
                                         disabled := True\<rparr>)\<rparr>)))\<close>

text \<open>The rest of \<^verbatim>\<open>submitForm\<close> once the awaited promise has settled: the rest of
  the \<^verbatim>\<open>try\<close> body, the \<^verbatim>\<open>catch\<close> block when the promise was rejected or the \<^verbatim>\<open>try\<close>
  body threw, then the \<^verbatim>\<open>finally\<close> block.\<close>

definition catch_block :: "contact_form \<Rightarrow> contact_form" where
  "catch_block f =
     (let f' = showErrorMessage f
      in f'\<lparr>console := console f' @ [''Form submission error:'']\<rparr>)"

definition submitForm_resume :: "settled \<Rightarrow> string \<Rightarrow> contact_form \<Rightarrow> contact_form" where
  "submitForm_resume outcome originalText f =
     (let f1 = (case outcome of
                  Fulfilled \<Rightarrow>
                    (let shown = showSuccessMessage f
                     in case form_reset shown of
                          Inr done \<Rightarrow> done
                        | Inl e \<Rightarrow> catch_block shown)
                | Rejected \<Rightarrow> catch_block f)
      in f1\<lparr>submitBtn :=
              map_option (\<lambda>b. b\<lparr>innerHTML := originalText, disabled := False\<rparr>) (submitBtn f1)\<rparr>)"

text \<open>\<^verbatim>\<open>submitForm\<close> around a given awaited promise; with a promise that never settles the
  function stays suspended in its loading state.\<close>

definition submitForm_awaiting ::
  "(nat \<times> settled) option \<Rightarrow> contact_form \<Rightarrow> error + contact_form" where
  "submitForm_awaiting awaited f =
     (case submitForm_begin f of
        Inl e \<Rightarrow> Inl e
      | Inr (originalText, f1) \<Rightarrow>
          (case awaited of
             None \<Rightarrow> Inr f1
           | Some (delay, outcome) \<Rightarrow> Inr (submitForm_resume outcome originalText f1)))"

definition submitForm :: "contact_form \<Rightarrow> error + contact_form" where
  "submitForm f = submitForm_awaiting simulated_request f"






section \<open>Sample pages\<close>

text \<open>A page with one section of height 100 at offset 400 and its navigation link.\<close>

definition about_section :: element where
  "about_section = \<lparr>attributes = [(''id'', ''about'')], classList = [''section''],
     style = [], offsetTop = 400, offsetHeight = 100\<rparr>"

definition about_link :: element where
  "about_link = \<lparr>attributes = [(''href'', ''#about'')], classList = [''nav__link''],
     style = [], offsetTop = 0, offsetHeight = 0\<rparr>"

definition plain :: "string \<Rightarrow> element" where
  "plain c = \<lparr>attributes = [], classList = [c], style = [], offsetTop = 0,
     offsetHeight = 64\<rparr>"

definition sample_dom :: "int \<Rightarrow> dom" where
  "sample_dom y = \<lparr>navMenu = Some (plain ''nav__menu''),
     navToggle = Some (plain ''nav__toggle''), navClose = Some (plain ''nav__close''),
     header = Some (plain ''header''), headerBox = Some (plain ''header''),
     sections = [about_section], navLinks = [about_link],
     pageYOffset = y, scrollTarget = None\<rparr>"

text \<open>
  An engine for the sample pages: it reads a text of the form \<^verbatim>\<open>.nav__link[href*="v"]\<close>
  with a plain \<open>v\<close> as that selector and rejects every other text with a
  \<^verbatim>\<open>SyntaxError\<close>.
\<close>

definition selector_value :: "string \<Rightarrow> string option" where
  \<open>selector_value sel =
     (let opening = ''.nav__link[href*="'';
          closing = ''"]'';
          v = take (length sel - length opening - length closing) (drop (length opening) sel)
      in if sel = opening @ v @ closing \<and> css_plain v then Some v else None)\<close>

definition strict_engine :: selector_engine where
  "strict_engine sel links =
     (case selector_value sel of
        None \<Rightarrow> Inl SyntaxError
      | Some v \<Rightarrow> Inr (first_href_match links v))"

text \<open>
  A page whose two links are listed with the longer href first, and whose two sections
  are \<^verbatim>\<open>about\<close>, at offset 400 with height 100, and \<^verbatim>\<open>about-me\<close>, further down.
\<close>

definition link_to :: "string \<Rightarrow> element" where
  "link_to h = \<lparr>attributes = [(''href'', h)], classList = [''nav__link''],
     style = [], offsetTop = 0, offsetHeight = 0\<rparr>"

definition section_at :: "string \<Rightarrow> int \<Rightarrow> int \<Rightarrow> element" where
  "section_at i y h = \<lparr>attributes = [(''id'', i)], classList = [''section''],
     style = [], offsetTop = y, offsetHeight = h\<rparr>"

definition two_section_dom :: dom where
  "two_section_dom = (sample_dom 1)\<lparr>sections := [section_at ''about'' 400 100,
       section_at ''about-me'' 1000 100],
     navLinks := [link_to ''#about-me'', link_to ''#about'']\<rparr>"

text \<open>A page whose only section has an id with a double quote in it.\<close>

definition quoted_id :: string where
  \<open>quoted_id = ''a"b''\<close>

definition quoted_dom :: dom where
  "quoted_dom = (sample_dom 1)\<lparr>sections := [section_at quoted_id 400 100],
     navLinks := [link_to (CHR ''#'' # quoted_id)]\<rparr>"

text \<open>The same page without the elements \<^verbatim>\<open>#nav-menu\<close>, \<^verbatim>\<open>#header\<close> and
  \<^verbatim>\<open>.header\<close>; the toggle button is still there.\<close>

definition menuless_dom :: dom where
  "menuless_dom = (sample_dom 0)\<lparr>navMenu := None, header := None, headerBox := None\<rparr>"

text \<open>Three filter buttons and two cards.\<close>

definition filter_button :: "string \<Rightarrow> element" where
  "filter_button v = \<lparr>attributes = [(''data-filter'', v)], classList = [''filter__btn''],
     style = [], offsetTop = 0, offsetHeight = 0\<rparr>"

definition project_card :: "string \<Rightarrow> element" where
  "project_card c = \<lparr>attributes = [(''data-category'', c)], classList = [''project__card''],
     style = [], offsetTop = 0, offsetHeight = 0\<rparr>"

definition sample_filter :: project_filter where
  "sample_filter = \<lparr>filterButtons = [filter_button ''all'', filter_button ''web'',
       filter_button ''app''],
     projectCards = [project_card ''web'', project_card ''app''], cardTimers = []\<rparr>"

text \<open>A filled-in contact form: three groups with one control each, then the submit
  button.  No name or id of its controls matters, so they are left empty.\<close>

definition text_field :: "bool \<Rightarrow> string \<Rightarrow> string \<Rightarrow> nat list \<Rightarrow> field" where
  "text_field req ty v p = \<lparr>name_attr = [], id_attr = [], required = req, field_type = ty,
     field_value = v, defaultValue = [], parentNode = p, borderColor = []\<rparr>"

definition send_button :: button where
  "send_button = \<lparr>innerHTML = ''Send Message'', disabled = False\<rparr>"

text \<open>The submit button is the last control of every sample form and a child of the
  form element.\<close>

definition submit_control :: field where
  "submit_control = \<lparr>name_attr = [], id_attr = [], required = False,
     field_type = ''submit'', field_value = [], defaultValue = [], parentNode = [],
     borderColor = []\<rparr>"

definition form_of :: "field list \<Rightarrow> node list \<Rightarrow> contact_form" where
  "form_of cs t = \<lparr>controls = cs @ [submit_control], tree = t,
     submitBtn = Some send_button, body = [], deferrals = [], console = []\<rparr>"

definition grouped :: "node list" where
  "grouped = [Element [Element []], Element [Element []], Element [Element []], Element []]"

definition jane_form :: contact_form where
  "jane_form = form_of [text_field True ''text'' ''Jane'' [0],
     text_field True ''email'' ''jane@x.com'' [1], text_field True ''textarea'' ''Hi'' [2]]
     grouped"








section \<open>Properties\<close>

lemma in_classList_add: "x \<in> set (classList_add c cs) \<longleftrightarrow> x = c \<or> x \<in> set cs"
  by (auto simp: classList_add_def)

lemma in_classList_remove: "x \<in> set (classList_remove c cs) \<longleftrightarrow> x \<noteq> c \<and> x \<in> set cs"
  by (auto simp: classList_remove_def)

lemma has_class_add: "has_class x (add_class c e) \<longleftrightarrow> x = c \<or> has_class x e"
  by (simp add: has_class_def add_class_def classList_contains_def in_classList_add)

lemma has_class_remove: "has_class x (remove_class c e) \<longleftrightarrow> x \<noteq> c \<and> has_class x e"
  by (simp add: has_class_def remove_class_def classList_contains_def in_classList_remove)

subsection \<open>Header blur\<close>

text \<open>
  C6.  When the header element exists, \<^verbatim>\<open>handleHeaderScroll\<close> succeeds and leaves the
  header with the class \<^verbatim>\<open>blur-header\<close> exactly when the scroll offset is at least 50.
\<close>

theorem handleHeaderScroll_blur:
  assumes "header d = Some h"
  shows "\<exists>d' h'. handleHeaderScroll d = Inr d' \<and> header d' = Some h' \<and>
           (has_class ''blur-header'' h' \<longleftrightarrow> pageYOffset d \<ge> 50)"
  using assms by (simp add: handleHeaderScroll_def has_class_add has_class_remove)

text \<open>The page \<open>sample_dom 50\<close> has a header and is scrolled to offset 50.\<close>

theorem handleHeaderScroll_blur_witness:
  "header (sample_dom 50) = Some (plain ''header'') \<and>
   (\<exists>d' h'. handleHeaderScroll (sample_dom 50) = Inr d' \<and> header d' = Some h' \<and>
      (has_class ''blur-header'' h' \<longleftrightarrow> pageYOffset (sample_dom 50) \<ge> 50))"
proof -
  have h: "header (sample_dom 50) = Some (plain ''header'')"
    by (simp add: sample_dom_def)
  show ?thesis using h handleHeaderScroll_blur [OF h] by simp
qed

subsection \<open>Active navigation link\<close>

lemma find_index_cong:
  "map P xs = map Q ys \<Longrightarrow> find_index P xs = find_index Q ys"
proof (induction xs arbitrary: ys)
  case Nil then show ?case by simp
next
  case (Cons x xs)
  then obtain y ys' where ys: "ys = y # ys'" by (cases ys) auto
  with Cons show ?case by auto
qed

lemma href_contains_attributes:
  "attributes a = attributes b \<Longrightarrow> href_contains v a = href_contains v b"
  by (simp add: href_contains_def getAttribute_def)

lemma first_href_match_attributes:
  assumes "map attributes links = map attributes links'"
  shows "first_href_match links v = first_href_match links' v"
proof -
  have "map (href_contains v) links = map (href_contains v) links'"
  proof -
    have "map (href_contains v) links = map (\<lambda>a. case map_of a ''href'' of None \<Rightarrow> False | Some h \<Rightarrow> v \<noteq> [] \<and> str_includes h v) (map attributes links)"
      by (simp add: href_contains_def getAttribute_def comp_def)
    also have "\<dots> = map (href_contains v) links'"
      unfolding assms by (simp add: href_contains_def getAttribute_def comp_def)
    finally show ?thesis .
  qed
  then show ?thesis unfolding first_href_match_def by (rule find_index_cong)
qed

lemma find_index_less: "find_index P xs = Some k \<Longrightarrow> k < length xs"
  by (induction xs arbitrary: k) (auto split: if_splits)

lemma first_href_match_less:
  "first_href_match links v = Some k \<Longrightarrow> k < length links"
  unfolding first_href_match_def by (rule find_index_less)

lemma attributes_add_class: "attributes (add_class c e) = attributes e"
  by (simp add: add_class_def)

lemma attributes_remove_class: "attributes (remove_class c e) = attributes e"
  by (simp add: remove_class_def)

lemma mark_section_attributes:
  "map attributes (mark_section y links s) = map attributes links"
  by (auto simp: mark_section_def Let_def map_update attributes_add_class
      attributes_remove_class list_update_same_conv split: option.splits
      dest: first_href_match_less)

lemma mark_section_other:
  assumes "first_href_match links (section_id s) \<noteq> Some k"
  shows "mark_section y links s ! k = links ! k"
  using assms by (auto simp: mark_section_def Let_def split: option.splits)

lemma mark_section_hit:
  assumes "first_href_match links (section_id s) = Some k"
  shows "has_class ''active-link'' (mark_section y links s ! k) \<longleftrightarrow>
           y > offsetTop s - 200 \<and> y \<le> offsetTop s - 200 + offsetHeight s"
  using assms first_href_match_less[OF assms]
  by (auto simp: mark_section_def Let_def has_class_add has_class_remove)

lemma foldl_highlight_attributes:
  "map attributes (foldl (mark_section y) links ss) = map attributes links"
  by (induction ss arbitrary: links) (simp_all add: mark_section_attributes)

lemma foldl_highlight_other:
  assumes "\<forall>t\<in>set ss. first_href_match links (section_id t) \<noteq> Some k"
  shows "foldl (mark_section y) links ss ! k = links ! k"
  using assms
proof (induction ss arbitrary: links)
  case Nil then show ?case by simp
next
  case (Cons s ss)
  let ?l = "mark_section y links s"
  have eq: "\<And>v. first_href_match ?l v = first_href_match links v"
    by (rule first_href_match_attributes) (rule mark_section_attributes)
  have "foldl (mark_section y) ?l ss ! k = ?l ! k"
    using Cons.prems by (intro Cons.IH) (simp add: eq)
  also have "?l ! k = links ! k"
    using Cons.prems by (intro mark_section_other) simp
  finally show ?case by simp
qed

lemma mark_sections_interval:
  assumes link: "first_href_match links (section_id s) = Some k"
    and last: "\<forall>t\<in>set after. first_href_match links (section_id t) \<noteq> Some k"
  shows "has_class ''active-link'' (foldl (mark_section y) links (before @ s # after) ! k) \<longleftrightarrow>
           offsetTop s - 200 < y \<and> y \<le> offsetTop s - 200 + offsetHeight s"
proof -
  let ?l1 = "foldl (mark_section y) links before"
  let ?l2 = "mark_section y ?l1 s"
  have a1: "\<And>v. first_href_match ?l1 v = first_href_match links v"
    by (rule first_href_match_attributes) (rule foldl_highlight_attributes)
  have a2: "\<And>v. first_href_match ?l2 v = first_href_match links v"
    unfolding a1[symmetric]
    by (rule first_href_match_attributes) (rule mark_section_attributes)
  have "foldl (mark_section y) links (before @ s # after) = foldl (mark_section y) ?l2 after"
    by simp
  then have "foldl (mark_section y) links (before @ s # after) ! k = ?l2 ! k"
    using last by (simp add: foldl_highlight_other a2)
  moreover have "has_class ''active-link'' (?l2 ! k) \<longleftrightarrow>
      y > offsetTop s - 200 \<and> y \<le> offsetTop s - 200 + offsetHeight s"
    by (rule mark_section_hit) (simp add: a1 link)
  ultimately show ?thesis by simp
qed

lemma highlight_section_plain:
  assumes "\<And>v links. css_plain v \<Longrightarrow>
             engine (nav_link_selector v) links = Inr (first_href_match links v)"
    and "css_plain (section_id s)"
  shows "highlight_section engine y links s = Inr (mark_section y links s)"
  using assms(2)
  by (simp add: highlight_section_def mark_section_def querySelector_navLink_def assms(1)
      Let_def split: option.splits)

lemma highlight_sections_plain:
  assumes "\<And>v links. css_plain v \<Longrightarrow>
             engine (nav_link_selector v) links = Inr (first_href_match links v)"
    and "\<forall>t\<in>set ss. css_plain (section_id t)"
  shows "highlight_sections engine y links ss = (foldl (mark_section y) links ss, None)"
  using assms(2)
  by (induction ss arbitrary: links) (simp_all add: highlight_section_plain[OF assms(1)])

text \<open>
  C1 (amended).  Let the ids of all sections be plain, let the selector engine find, for
  a plain id, the first link whose \<^verbatim>\<open>href\<close> contains the id, let \<open>k\<close> be the link found
  for the section \<open>s\<close>, and let no section after \<open>s\<close> find the same link.  Then
  \<^verbatim>\<open>highlightActiveNavLink\<close> throws nothing, and after it the link \<open>k\<close> carries
  \<^verbatim>\<open>active-link\<close> exactly when the scroll offset plus 200 lies in the interval from
  \<open>top - 200\<close> (excluded) to \<open>top - 200 + height\<close> (included).
\<close>

theorem highlightActiveNavLink_interval:
  assumes engine: "\<And>v links. css_plain v \<Longrightarrow>
             engine (nav_link_selector v) links = Inr (first_href_match links v)"
    and plain: "\<forall>t\<in>set (sections d). css_plain (section_id t)"
    and secs: "sections d = before @ s # after"
    and link: "first_href_match (navLinks d) (section_id s) = Some k"
    and last: "\<forall>t\<in>set after. first_href_match (navLinks d) (section_id t) \<noteq> Some k"
  shows "snd (highlightActiveNavLink engine d) = None \<and>
         (has_class ''active-link'' (navLinks (fst (highlightActiveNavLink engine d)) ! k) \<longleftrightarrow>
            offsetTop s - 200 < pageYOffset d + 200 \<and>
            pageYOffset d + 200 \<le> offsetTop s - 200 + offsetHeight s)"
proof -
  have run: "highlight_sections engine (pageYOffset d + 200) (navLinks d) (sections d) =
      (foldl (mark_section (pageYOffset d + 200)) (navLinks d) (before @ s # after), None)"
    using highlight_sections_plain[OF engine plain] by (simp add: secs)
  show ?thesis
    using mark_sections_interval[OF link last, of "pageYOffset d + 200" before]
    by (simp add: highlightActiveNavLink_def run Let_def)
qed

text \<open>The engine of the sample pages finds the first link for every plain id.\<close>

lemma selector_value_plain: "css_plain v \<Longrightarrow> selector_value (nav_link_selector v) = Some v"
  by (simp add: selector_value_def nav_link_selector_def Let_def)

lemma strict_engine_plain:
  "css_plain v \<Longrightarrow> strict_engine (nav_link_selector v) links = Inr (first_href_match links v)"
  by (simp add: strict_engine_def selector_value_plain)

lemma about_section_box:
  "offsetTop about_section = 400" "offsetHeight about_section = 100"
  "section_id about_section = ''about''"
  by (simp_all add: about_section_def section_id_def getAttribute_def)

lemma about_plain: "css_plain ''about''" "css_plain ''about-me''"
  by (simp_all add: css_plain_def)

lemma about_link_found: "first_href_match [about_link] ''about'' = Some 0"
  by (simp add: first_href_match_def about_link_def href_contains_def getAttribute_def)

text \<open>At offset 1 the sample page's only section is reached: \<open>201\<close> lies in \<open>(200, 300]\<close>.\<close>

theorem highlightActiveNavLink_interval_witness:
  "sections (sample_dom 1) = [] @ about_section # [] \<and>
   first_href_match (navLinks (sample_dom 1)) (section_id about_section) = Some 0 \<and>
   snd (highlightActiveNavLink strict_engine (sample_dom 1)) = None \<and>
   has_class ''active-link'' (navLinks (fst (highlightActiveNavLink strict_engine (sample_dom 1))) ! 0)"
proof -
  have p: "\<forall>t\<in>set (sections (sample_dom 1)). css_plain (section_id t)"
    by (simp add: sample_dom_def about_section_box about_plain)
  have s: "sections (sample_dom 1) = [] @ about_section # []"
    by (simp add: sample_dom_def)
  have l: "first_href_match (navLinks (sample_dom 1)) (section_id about_section) = Some 0"
    by (simp add: sample_dom_def about_section_box about_link_found)
  have a: "\<forall>t\<in>set []. first_href_match (navLinks (sample_dom 1)) (section_id t) \<noteq> Some 0"
    by simp
  have y: "pageYOffset (sample_dom 1) = 1" by (simp add: sample_dom_def)
  show ?thesis
    using s l highlightActiveNavLink_interval [OF strict_engine_plain p s l a]
    by (simp add: about_section_box y)
qed

text \<open>
  C1 as stated fails in four ways, shown with the engine of the sample pages, which
  agrees with a browser on each of these selector texts.  With the interval closed below
  and open above: at offset 0 the sum \<open>200\<close> is the lower end \<open>top - 200\<close> and the link is
  not marked, and at offset 100 the sum \<open>300\<close> is the upper end \<open>top - 200 + height\<close> and the
  link is marked.  With two links \<^verbatim>\<open>#about-me\<close> and \<^verbatim>\<open>#about\<close>, in this order, and the
  sections \<^verbatim>\<open>about\<close> and \<^verbatim>\<open>about-me\<close>: at offset 1 the section \<^verbatim>\<open>about\<close> is reached, but
  its selector finds the link \<^verbatim>\<open>#about-me\<close>, which the section \<^verbatim>\<open>about-me\<close> then unmarks,
  and the link \<^verbatim>\<open>#about\<close> is never touched.  With a section whose id has a double quote
  in it the lookup throws and nothing is marked.
\<close>

lemma selector_value_quoted: "selector_value (nav_link_selector quoted_id) = None"
  by (simp add: selector_value_def nav_link_selector_def quoted_id_def css_plain_def Let_def)

lemma two_section_lookups:
  "first_href_match [link_to ''#about-me'', link_to ''#about''] ''about'' = Some 0"
  "first_href_match [link_to ''#about-me'', link_to ''#about''] ''about-me'' = Some 0"
  by (simp_all add: first_href_match_def link_to_def href_contains_def getAttribute_def)

lemma section_at_sel:
  "offsetTop (section_at i y h) = y" "offsetHeight (section_at i y h) = h"
  "section_id (section_at i y h) = i"
  by (simp_all add: section_at_def section_id_def getAttribute_def)

theorem highlightActiveNavLink_closed_open_counterexample:
  "(offsetTop about_section - 200 \<le> pageYOffset (sample_dom 0) + 200 \<and>
    pageYOffset (sample_dom 0) + 200 < offsetTop about_section - 200 + offsetHeight about_section) \<and>
   \<not> has_class ''active-link''
       (navLinks (fst (highlightActiveNavLink strict_engine (sample_dom 0))) ! 0) \<and>
   \<not> (offsetTop about_section - 200 \<le> pageYOffset (sample_dom 100) + 200 \<and>
    pageYOffset (sample_dom 100) + 200 < offsetTop about_section - 200 + offsetHeight about_section) \<and>
   has_class ''active-link''
     (navLinks (fst (highlightActiveNavLink strict_engine (sample_dom 100))) ! 0) \<and>
   (400 - 200 < pageYOffset two_section_dom + 200 \<and>
    pageYOffset two_section_dom + 200 \<le> 400 - 200 + 100) \<and>
   \<not> has_class ''active-link''
       (navLinks (fst (highlightActiveNavLink strict_engine two_section_dom)) ! 0) \<and>
   \<not> has_class ''active-link''
       (navLinks (fst (highlightActiveNavLink strict_engine two_section_dom)) ! 1) \<and>
   (400 - 200 < pageYOffset quoted_dom + 200 \<and>
    pageYOffset quoted_dom + 200 \<le> 400 - 200 + 100) \<and>
   highlightActiveNavLink strict_engine quoted_dom = (quoted_dom, Some SyntaxError) \<and>
   \<not> has_class ''active-link'' (navLinks quoted_dom ! 0)"
proof -
  have e: "strict_engine (nav_link_selector ''about'') links = Inr (first_href_match links ''about'')"
    "strict_engine (nav_link_selector ''about-me'') links =
       Inr (first_href_match links ''about-me'')" for links
    by (simp_all add: strict_engine_plain about_plain)
  have q: "strict_engine (nav_link_selector quoted_id) links = Inl SyntaxError" for links
    by (simp add: strict_engine_def selector_value_quoted)
  have 1: "\<not> has_class ''active-link''
       (navLinks (fst (highlightActiveNavLink strict_engine (sample_dom 0))) ! 0)"
    "has_class ''active-link''
       (navLinks (fst (highlightActiveNavLink strict_engine (sample_dom 100))) ! 0)"
    by (simp_all add: highlightActiveNavLink_def sample_dom_def highlight_section_def
        querySelector_navLink_def e about_link_found about_section_box has_class_remove
        has_class_add)
  have 2: "navLinks (fst (highlightActiveNavLink strict_engine two_section_dom)) =
      [remove_class ''active-link'' (add_class ''active-link'' (link_to ''#about-me'')),
       link_to ''#about'']"
    by (simp add: highlightActiveNavLink_def two_section_dom_def sample_dom_def
        highlight_section_def querySelector_navLink_def e section_at_sel
        first_href_match_attributes[of "[add_class c a, b]" "[a, b]" for c a b]
        attributes_add_class two_section_lookups)
  have 3: "highlightActiveNavLink strict_engine quoted_dom = (quoted_dom, Some SyntaxError)"
    by (simp add: highlightActiveNavLink_def quoted_dom_def sample_dom_def
        highlight_section_def querySelector_navLink_def q section_at_sel)
  have 4: "\<not> has_class ''active-link'' (navLinks quoted_dom ! 0)"
    by (simp add: quoted_dom_def sample_dom_def link_to_def has_class_def
        classList_contains_def)
  have 5: "\<not> has_class ''active-link''
       (navLinks (fst (highlightActiveNavLink strict_engine two_section_dom)) ! 0)"
    unfolding 2 by (simp add: has_class_remove)
  have 7: "\<not> has_class ''active-link''
       (navLinks (fst (highlightActiveNavLink strict_engine two_section_dom)) ! 1)"
    unfolding 2 by (simp add: link_to_def has_class_def classList_contains_def)
  have 6: "offsetTop about_section - 200 \<le> pageYOffset (sample_dom 0) + 200 \<and>
    pageYOffset (sample_dom 0) + 200 < offsetTop about_section - 200 + offsetHeight about_section"
    "\<not> (offsetTop about_section - 200 \<le> pageYOffset (sample_dom 100) + 200 \<and>
    pageYOffset (sample_dom 100) + 200 < offsetTop about_section - 200 + offsetHeight about_section)"
    "400 - 200 < pageYOffset two_section_dom + 200 \<and>
    pageYOffset two_section_dom + 200 \<le> 400 - 200 + 100"
    "400 - 200 < pageYOffset quoted_dom + 200 \<and>
    pageYOffset quoted_dom + 200 \<le> 400 - 200 + 100"
    by (simp_all add: about_section_box sample_dom_def two_section_dom_def quoted_dom_def)
  show ?thesis
    using 1 3 4 5 6 7 by blast
qed

subsection \<open>Missing elements\<close>

text \<open>
  C3.  On a page that has the toggle button but no \<^verbatim>\<open>#nav-menu\<close>, no \<^verbatim>\<open>#header\<close> and
  no \<^verbatim>\<open>.header\<close>, the menu listeners, the Escape key, the header scroll handler and the
  smooth scroll all fault with a \<^verbatim>\<open>TypeError\<close>: the toggle's own existence is tested, the
  menu's is not.
\<close>

theorem missing_element_faults:
  "navToggle menuless_dom \<noteq> None \<and> navMenu menuless_dom = None \<and>
   navToggle_click menuless_dom = Inl TypeError \<and>
   navClose_click menuless_dom = Inl TypeError \<and>
   navLink_click menuless_dom = Inl TypeError \<and>
   keydown ''Escape'' (plain ''body'') menuless_dom = Inl TypeError \<and>
   handleHeaderScroll menuless_dom = Inl TypeError \<and>
   smoothScrollToSection (Some about_section) menuless_dom = Inl TypeError"
  by (simp add: menuless_dom_def sample_dom_def navToggle_click_def navClose_click_def
      navLink_click_def keydown_def handleHeaderScroll_def smoothScrollToSection_def)

subsection \<open>Debounce\<close>

lemma executedFunction_tidy:
  assumes "tidy st"
  shows "executedFunction wait args st =
           st\<lparr>pending := [\<lparr>handle = next_handle st, due = clock st + timer_delay wait, captured = args\<rparr>],
              next_handle := Suc (next_handle st),
              timeout := Some (next_handle st)\<rparr>"
  using assms
  by (auto simp: tidy_def executedFunction_def clearTimeout_def setTimeout_def Let_def
      split: list.splits)

lemma run_timers_idle:
  assumes "pending st = []"
  shows "run_timers (clock st + d) st = st\<lparr>clock := clock st + d\<rparr>"
  by (subst run_timers.simps) (simp add: assms)

lemma run_timers_early:
  assumes "pending st = [t]" and "clock st + d < due t"
  shows "run_timers (clock st + d) st = st\<lparr>clock := clock st + d\<rparr>"
  using assms by (subst run_timers.simps) simp

lemma run_timers_due:
  assumes "pending st = [t]" and "timeout st = Some (handle t)"
    and "clock st \<le> due t" and "due t \<le> clock st + d"
  shows "run_timers (clock st + d) st =
           st\<lparr>clock := clock st + d, pending := [],
              calls := calls st @ [(due t, captured t)]\<rparr>"
proof -
  have f: "fire t st = st\<lparr>clock := due t, pending := [],
              calls := calls st @ [(due t, captured t)]\<rparr>"
    using assms by (simp add: fire_def later_def clearTimeout_def Let_def max_def)
  have "run_timers (clock st + d) st = run_timers (clock st + d) (fire t st)"
    by (subst run_timers.simps) (simp add: assms)
  also have "\<dots> = (fire t st)\<lparr>clock := max (clock (fire t st)) (clock st + d)\<rparr>"
    by (subst run_timers.simps) (simp add: f)
  finally show ?thesis using assms by (simp add: f max_def)
qed

lemma debounce_run_Cons: "debounce_run wait (ev # evs) st = debounce_run wait evs (occur wait ev st)"
  by (simp add: debounce_run_def)

lemma debounce_run_append:
  "debounce_run wait (xs @ ys) st = debounce_run wait ys (debounce_run wait xs st)"
  by (simp add: debounce_run_def)

lemma debounce_run_Nil: "debounce_run wait [] st = st"
  by (simp add: debounce_run_def)

lemma burst_state:
  assumes "tidy st" and "\<forall>p\<in>set rest. fst p < timer_delay wait"
  shows "\<exists>h. debounce_run wait (burst a rest) st =
           st\<lparr>clock := clock st + burst_length rest,
              pending := [\<lparr>handle = h, due = clock st + burst_length rest + timer_delay wait,
                           captured = last_args a rest\<rparr>],
              next_handle := next_handle st + Suc (length rest),
              timeout := Some h\<rparr>"
  using assms
proof (induction rest arbitrary: a st)
  case Nil
  then show ?case
    by (intro exI[of _ "next_handle st"])
      (simp add: debounce_run_Cons debounce_run_Nil executedFunction_tidy)
next
  case (Cons p rest)
  obtain gap b where p: "p = (gap, b)" by (cases p)
  let ?t = "\<lparr>handle = next_handle st, due = clock st + timer_delay wait, captured = a\<rparr>"
  let ?s1 = "executedFunction wait a st"
  let ?s2 = "?s1\<lparr>clock := clock ?s1 + gap\<rparr>"
  have s1: "?s1 = st\<lparr>pending := [?t], next_handle := Suc (next_handle st),
                     timeout := Some (next_handle st)\<rparr>"
    using Cons.prems(1) by (rule executedFunction_tidy)
  have gap: "gap < timer_delay wait" using Cons.prems(2) by (simp add: p)
  have s2: "run_timers (clock ?s1 + gap) ?s1 = ?s2"
    by (rule run_timers_early[where t = ?t]) (simp_all add: s1 gap)
  have tidy2: "tidy ?s2" by (simp add: tidy_def s1)
  have rest: "\<forall>q\<in>set rest. fst q < timer_delay wait" using Cons.prems(2) by simp
  from Cons.IH[OF tidy2 rest, of b] obtain h where
    h: "debounce_run wait (burst b rest) ?s2 =
           ?s2\<lparr>clock := clock ?s2 + burst_length rest,
              pending := [\<lparr>handle = h, due = clock ?s2 + burst_length rest + timer_delay wait,
                           captured = last_args b rest\<rparr>],
              next_handle := next_handle ?s2 + Suc (length rest),
              timeout := Some h\<rparr>" by blast
  have "debounce_run wait (burst a (p # rest)) st = debounce_run wait (burst b rest) ?s2"
    by (simp add: p debounce_run_Cons s2)
  then show ?case
    unfolding h by (intro exI[of _ h]) (simp add: p s1 add.assoc)
qed

lemma burst_then_quiet:
  assumes "pending st = []" and "\<forall>p\<in>set rest. fst p < timer_delay wait"
  shows "calls (debounce_run wait (burst a rest) st) = calls st \<and>
         map (\<lambda>t. (due t, captured t)) (pending (debounce_run wait (burst a rest) st)) =
           [(clock st + burst_length rest + timer_delay wait, last_args a rest)] \<and>
         calls (debounce_run wait (burst a rest @ [Elapse d]) st) =
           calls st @ (if timer_delay wait \<le> d
                       then [(clock st + burst_length rest + timer_delay wait, last_args a rest)]
                       else []) \<and>
         (timer_delay wait \<le> d \<longrightarrow>
            pending (debounce_run wait (burst a rest @ [Elapse d]) st) = [] \<and>
            calls (debounce_run wait (burst a rest @ [Elapse d, Elapse d']) st) =
              calls st @ [(clock st + burst_length rest + timer_delay wait, last_args a rest)])"
proof -
  have "tidy st" using assms(1) by (simp add: tidy_def)
  from burst_state[OF this assms(2), of a] obtain h where
    h: "debounce_run wait (burst a rest) st =
           st\<lparr>clock := clock st + burst_length rest,
              pending := [\<lparr>handle = h, due = clock st + burst_length rest + timer_delay wait,
                           captured = last_args a rest\<rparr>],
              next_handle := next_handle st + Suc (length rest),
              timeout := Some h\<rparr>" by blast
  let ?s = "debounce_run wait (burst a rest) st"
  let ?t = "\<lparr>handle = h, due = clock st + burst_length rest + timer_delay wait,
             captured = last_args a rest\<rparr>"
  have p: "pending ?s = [?t]" and c: "clock ?s = clock st + burst_length rest"
    and k: "calls ?s = calls st" and to: "timeout ?s = Some (handle ?t)"
    by (simp_all add: h)
  have late: "run_timers (clock ?s + d) ?s =
      ?s\<lparr>clock := clock ?s + d, pending := [], calls := calls ?s @ [(due ?t, captured ?t)]\<rparr>"
    if "timer_delay wait \<le> d"
    using that by (intro run_timers_due[OF p to]) (simp_all add: c)
  have early: "run_timers (clock ?s + d) ?s = ?s\<lparr>clock := clock ?s + d\<rparr>" if "\<not> timer_delay wait \<le> d"
    using that by (intro run_timers_early[OF p]) (simp add: c)
  have 3: "calls (debounce_run wait (burst a rest @ [Elapse d]) st) =
           calls st @ (if timer_delay wait \<le> d
                       then [(clock st + burst_length rest + timer_delay wait, last_args a rest)]
                       else [])"
    using late early by (simp add: debounce_run_append debounce_run_Cons debounce_run_Nil k)
  have 4: "pending (debounce_run wait (burst a rest @ [Elapse d]) st) = [] \<and>
            calls (debounce_run wait (burst a rest @ [Elapse d, Elapse d']) st) =
              calls st @ [(clock st + burst_length rest + timer_delay wait, last_args a rest)]"
    if w: "timer_delay wait \<le> d"
  proof -
    let ?s' = "?s\<lparr>clock := clock ?s + d, pending := [],
                   calls := calls ?s @ [(due ?t, captured ?t)]\<rparr>"
    have "run_timers (clock ?s' + d') ?s' = ?s'\<lparr>clock := clock ?s' + d'\<rparr>"
      by (rule run_timers_idle) simp
    then show ?thesis
      using late[OF w]
      by (simp add: debounce_run_append debounce_run_Cons debounce_run_Nil k)
  qed
  show ?thesis using k p 3 4 by simp
qed


text \<open>
  C2 (amended).  Let the delay be a whole number of milliseconds from 0 up to, and not
  including, \<open>2\<^sup>3\<^sup>1\<close>.  Start with no timer pending and let a burst of calls arrive,
  each less than \<open>wait\<close> after the one before.  During the burst \<^verbatim>\<open>func\<close> is not called
  and exactly one timer is pending, the one of the last call.  If then \<open>d\<close> ms pass
  without a call, \<^verbatim>\<open>func\<close> has been called once, \<open>wait\<close> ms after the last call and
  with its arguments, when \<open>wait \<le> d\<close>, and not at all otherwise; after the call no
  timer is pending and more time passing calls nothing.
\<close>

theorem debounce_fires_once_per_burst:
  assumes "pending st = []" and "0 \<le> wait" and "wait < 2147483648"
    and "\<forall>p\<in>set rest. int (fst p) < wait"
  shows "calls (debounce_run wait (burst a rest) st) = calls st \<and>
         map (\<lambda>t. (due t, captured t)) (pending (debounce_run wait (burst a rest) st)) =
           [(clock st + burst_length rest + nat wait, last_args a rest)] \<and>
         calls (debounce_run wait (burst a rest @ [Elapse d]) st) =
           calls st @ (if wait \<le> int d
                       then [(clock st + burst_length rest + nat wait, last_args a rest)]
                       else []) \<and>
         (wait \<le> int d \<longrightarrow>
            pending (debounce_run wait (burst a rest @ [Elapse d]) st) = [] \<and>
            calls (debounce_run wait (burst a rest @ [Elapse d, Elapse d']) st) =
              calls st @ [(clock st + burst_length rest + nat wait, last_args a rest)])"
proof -
  have w: "timer_delay wait = nat wait"
    using assms(2,3) by (simp add: timer_delay_def to_long_def)
  have gaps: "\<forall>p\<in>set rest. fst p < timer_delay wait"
    using assms(2,4) by (auto simp: w)
  have le: "timer_delay wait \<le> d \<longleftrightarrow> wait \<le> int d"
    using assms(2) by (auto simp: w)
  show ?thesis
    using burst_then_quiet [OF assms(1) gaps, of a d d'] unfolding le unfolding w .
qed

text \<open>Calls at 0, 5 and 10 ms with a delay of 16 ms: nothing by 25 ms, one call at
  26 ms with the arguments of the third call, nothing more later.\<close>

theorem debounce_fires_once_per_burst_witness:
  "pending (debounce :: string debounced) = [] \<and>
   calls (debounce_run 16 [Invoke ''first'', Elapse 5, Invoke ''second'', Elapse 5,
            Invoke ''third''] debounce) = [] \<and>
   calls (debounce_run 16 [Invoke ''first'', Elapse 5, Invoke ''second'', Elapse 5,
            Invoke ''third'', Elapse 15] debounce) = [] \<and>
   calls (debounce_run 16 [Invoke ''first'', Elapse 5, Invoke ''second'', Elapse 5,
            Invoke ''third'', Elapse 16] debounce) = [(26, ''third'')] \<and>
   calls (debounce_run 16 [Invoke ''first'', Elapse 5, Invoke ''second'', Elapse 5,
            Invoke ''third'', Elapse 16, Elapse 1000] debounce) = [(26, ''third'')]"
proof -
  have h: "pending (debounce :: string debounced) = []" "(0::int) \<le> 16"
    "(16::int) < 2147483648" "\<forall>p\<in>set [(5, ''second''), (5, ''third'')]. int (fst p) < 16"
    by (simp_all add: debounce_def)
  have c: "calls (debounce :: string debounced) = []" "clock (debounce :: string debounced) = 0"
    by (simp_all add: debounce_def)
  show ?thesis
    using h(1) debounce_fires_once_per_burst [OF h, of "''first''" 15 1000]
      debounce_fires_once_per_burst [OF h, of "''first''" 16 1000]
    by (simp add: c)
qed


text \<open>
  C2 as stated, for every delay, fails at the delay \<open>2\<^sup>3\<^sup>1\<close>: the browser runs the
  timer at once, so with calls at 0 and 5 ms \<^verbatim>\<open>func\<close> is called after each of them, at 0
  and at 5 ms, long before the delay has passed.
\<close>

theorem debounce_wrapped_delay_counterexample:
  "calls (debounce_run 2147483648 [Invoke ''first'', Elapse 5, Invoke ''second'', Elapse 5]
      debounce) = [(0, ''first''), (5, ''second'')]"
proof -
  have w: "timer_delay 2147483648 = 0"
    by (simp add: timer_delay_def to_long_def)
  let ?s0 = "debounce :: string debounced"
  let ?t1 = "\<lparr>handle = 1, due = 0, captured = ''first''\<rparr> :: string timer"
  let ?s1 = "?s0\<lparr>pending := [?t1], next_handle := 2, timeout := Some 1\<rparr>"
  let ?s2 = "?s1\<lparr>clock := 5, pending := [], calls := [(0, ''first'')]\<rparr>"
  let ?t2 = "\<lparr>handle = 2, due = 5, captured = ''second''\<rparr> :: string timer"
  let ?s3 = "?s2\<lparr>pending := [?t2], next_handle := 3, timeout := Some 2\<rparr>"
  let ?s4 = "?s3\<lparr>clock := 10, pending := [], calls := [(0, ''first''), (5, ''second'')]\<rparr>"
  have 1: "executedFunction 2147483648 ''first'' ?s0 = ?s1"
    by (simp add: executedFunction_def clearTimeout_def setTimeout_def w debounce_def)
  have 2: "run_timers (clock ?s1 + 5) ?s1 = ?s2"
    by (subst run_timers_due [where t = ?t1]) (simp_all add: debounce_def)
  have 3: "executedFunction 2147483648 ''second'' ?s2 = ?s3"
    by (simp add: executedFunction_def clearTimeout_def setTimeout_def w debounce_def)
  have 4: "run_timers (clock ?s3 + 5) ?s3 = ?s4"
    by (subst run_timers_due [where t = ?t2]) (simp_all add: debounce_def)
  have "debounce_run 2147483648 [Invoke ''first'', Elapse 5, Invoke ''second'', Elapse 5] ?s0 = ?s4"
    by (simp only: debounce_run_Cons debounce_run_Nil occur.simps 1 2 3 4)
  then show ?thesis by simp
qed
subsection \<open>Project filter\<close>





lemma filterButtons_filterProjects: "filterButtons (filterProjects f pf) = filterButtons pf"
  by (simp add: filterProjects_def case_prod_beta)



lemma length_updateActiveButton:
  "length (filterButtons (updateActiveButton b pf)) = length (filterButtons pf)"
  by (simp add: updateActiveButton_def Let_def)

lemma active_updateActiveButton:
  assumes "b < length (filterButtons pf)" "j < length (filterButtons pf)"
  shows "has_class ''filter__btn--active'' (filterButtons (updateActiveButton b pf) ! j) \<longleftrightarrow> j = b"
  using assms
  by (auto simp: updateActiveButton_def Let_def nth_list_update has_class_add has_class_remove)



lemma length_handleFilter:
  "length (filterButtons (handleFilter b pf)) = length (filterButtons pf)"
  by (simp add: handleFilter_def Let_def filterButtons_filterProjects length_updateActiveButton)

lemma active_handleFilter:
  assumes "b < length (filterButtons pf)" "j < length (filterButtons pf)"
  shows "has_class ''filter__btn--active'' (filterButtons (handleFilter b pf) ! j) \<longleftrightarrow> j = b"
  using assms
  by (simp add: handleFilter_def Let_def filterButtons_filterProjects active_updateActiveButton)

lemma length_clicks:
  "length (filterButtons (clicks bs pf)) = length (filterButtons pf)"
  unfolding clicks_def
  by (induction bs arbitrary: pf) (simp_all add: length_handleFilter)

lemma clicks_snoc: "clicks (bs @ [b]) pf = handleFilter b (clicks bs pf)"
  by (simp add: clicks_def)

text \<open>
  C8.  After any non-empty run of clicks on filter buttons, a button of the collection is
  marked active exactly when it is the one clicked last.
\<close>

theorem clicks_one_active:
  assumes "bs \<noteq> []" and "\<forall>b\<in>set bs. b < length (filterButtons pf)"
    and "j < length (filterButtons pf)"
  shows "last bs < length (filterButtons (clicks bs pf)) \<and>
         (has_class ''filter__btn--active'' (filterButtons (clicks bs pf) ! j) \<longleftrightarrow> j = last bs)"
proof -
  from assms(1) obtain cs b where bs: "bs = cs @ [b]"
    by (cases bs rule: rev_cases) auto
  have b: "b < length (filterButtons (clicks cs pf))"
    using assms(2) by (simp add: bs length_clicks)
  have j: "j < length (filterButtons (clicks cs pf))"
    using assms(3) by (simp add: length_clicks)
  show ?thesis
    using active_handleFilter [OF b j] b
    by (simp add: bs clicks_snoc length_handleFilter)
qed


text \<open>Three clicks on the sample filter, the last one on the third button.\<close>

lemma sample_buttons: "length (filterButtons sample_filter) = 3"
  by (simp add: sample_filter_def)

theorem clicks_one_active_witness:
  "length (filterButtons sample_filter) = 3 \<and>
   \<not> has_class ''filter__btn--active'' (filterButtons (clicks [1, 0, 2] sample_filter) ! 0) \<and>
   \<not> has_class ''filter__btn--active'' (filterButtons (clicks [1, 0, 2] sample_filter) ! 1) \<and>
   has_class ''filter__btn--active'' (filterButtons (clicks [1, 0, 2] sample_filter) ! 2)"
  using clicks_one_active [of "[1, 0, 2]" sample_filter 0]
    clicks_one_active [of "[1, 0, 2]" sample_filter 1]
    clicks_one_active [of "[1, 0, 2]" sample_filter 2]
  by (simp add: sample_buttons)

subsection \<open>Scroll animations\<close>

lemma class_step_keeps_animated:
  "has_class ''animated'' el \<Longrightarrow> has_class ''animated'' (class_step ev el)"
  by (cases ev) (simp_all add: fade_callback_def fade_observe_def has_class_add
      has_class_remove Let_def)

lemma class_run_keeps_animated:
  "has_class ''animated'' el \<Longrightarrow> has_class ''animated'' (class_run evs el)"
  unfolding class_run_def
  by (induction evs arbitrary: el) (simp_all add: class_step_keeps_animated)

lemma class_run_append: "class_run (xs @ ys) el = class_run ys (class_run xs el)"
  by (simp add: class_run_def)

lemma class_run_Cons: "class_run (ev # evs) el = class_run evs (class_step ev el)"
  by (simp add: class_run_def)

text \<open>
  C9.  Whatever happened before, once the fade observer reports an element as
  intersecting, the element carries \<^verbatim>\<open>animated\<close> after every later sequence of events;
  and no event of the script takes \<^verbatim>\<open>animated\<close> away from an element that has it.
\<close>

theorem animated_never_removed:
  "has_class ''animated'' (class_run (earlier @ FadeIntersection True # later_events) el) \<and>
   (has_class ''animated'' el \<longrightarrow> has_class ''animated'' (class_run evs el))"
proof
  have "has_class ''animated'' (class_step (FadeIntersection True) (class_run earlier el))"
    by (simp add: fade_callback_def has_class_add)
  then show "has_class ''animated''
      (class_run (earlier @ FadeIntersection True # later_events) el)"
    by (simp add: class_run_append class_run_Cons class_run_keeps_animated)
  show "has_class ''animated'' el \<longrightarrow> has_class ''animated'' (class_run evs el)"
    by (simp add: class_run_keeps_animated)
qed


text \<open>A card that has been revealed, then leaves the viewport, is filtered out and in
  again, and sees further events.\<close>

theorem animated_never_removed_witness:
  "has_class ''animated'' (class_step (FadeIntersection True) (project_card ''web'')) \<and>
   has_class ''animated''
     (class_run [FadeIntersection False, FilterCard (Some ''app''), FilterCard (Some ''all''),
        LazyLoaded, HeaderScroll 0]
        (class_step (FadeIntersection True) (project_card ''web'')))"
proof -
  have h: "has_class ''animated'' (class_step (FadeIntersection True) (project_card ''web''))"
    by (simp add: fade_callback_def has_class_add)
  show ?thesis
    using h animated_never_removed [of "[]" "[]" "class_step (FadeIntersection True) (project_card ''web'')"
        "[FadeIntersection False, FilterCard (Some ''app''), FilterCard (Some ''all''),
        LazyLoaded, HeaderScroll 0]"]
    by blast
qed

subsection \<open>Contact form: submission\<close>

text \<open>
  C4.  When the form has a submit button, \<^verbatim>\<open>submitForm\<close> first puts it into the disabled
  loading state, and once the awaited promise has settled, fulfilled or rejected, the
  button has the label it had before and is enabled again.  This holds for the simulated
  request of the script in particular.
\<close>

theorem submitForm_restores_button:
  assumes "submitBtn f = Some b"
  shows "(\<exists>f1. submitForm_begin f = Inr (innerHTML b, f1) \<and>
               map_option disabled (submitBtn f1) = Some True) \<and>
         (\<exists>f'. submitForm_awaiting (Some (delay, outcome)) f = Inr f' \<and>
               submitBtn f' = Some \<lparr>innerHTML = innerHTML b, disabled = False\<rparr>) \<and>
         (\<exists>f'. submitForm f = Inr f' \<and>
               submitBtn f' = Some \<lparr>innerHTML = innerHTML b, disabled = False\<rparr>)"
  using assms
  by (cases outcome)
    (simp_all add: submitForm_def simulated_request_def submitForm_awaiting_def
      submitForm_begin_def submitForm_resume_def form_reset_def catch_block_def
      showSuccessMessage_def showErrorMessage_def showNotification_def Let_def)


text \<open>The sample form, with the awaited promise rejected and with the script's own.\<close>

lemma jane_button: "submitBtn jane_form = Some send_button"
  by (simp add: jane_form_def form_of_def)

theorem submitForm_restores_button_witness:
  "submitBtn jane_form = Some send_button \<and>
   (\<exists>f'. submitForm_awaiting (Some (2000, Rejected)) jane_form = Inr f' \<and>
         submitBtn f' = Some \<lparr>innerHTML = ''Send Message'', disabled = False\<rparr>) \<and>
   (\<exists>f'. submitForm jane_form = Inr f' \<and>
         submitBtn f' = Some \<lparr>innerHTML = ''Send Message'', disabled = False\<rparr>)"
  using jane_button submitForm_restores_button [OF jane_button, of 2000 Rejected]
  by (simp add: send_button_def)




subsection \<open>Contact form: validation\<close>














lemma within_refl: "within p p"
  by (induction p) simp_all


















end
